theory Spec2Isabelle
  imports Complex_Main "HOL-Library.Multiset"
begin

section \<open>The trivia quiz of \<open>src/App.js\<close>\<close>

text \<open>
  \<open>App.js\<close> is one React component. Its state is eight \<open>useState\<close> cells; its logic is
  two utilities (\<open>decodeHtml\<close>, \<open>shuffleArray\<close>), the asynchronous \<open>fetchQuestions\<close>,
  three event handlers and \<open>renderContent\<close>, which decides what is on the screen and so
  which handler a user can reach.

  JavaScript numbers are doubles; the two counters of the component start at \<open>0\<close> and
  only ever grow by \<open>1\<close>, which is exact below \<open>2^53\<close>, so they are integers here.
\<close>

subsection \<open>The host: entity decoding and the random source\<close>

text \<open>
  \<open>decodeHtml\<close> writes its argument into a detached \<open>textarea\<close> and reads the value
  back: the browser's entity table does the work, so the function is a parameter.
  \<open>Math.random()\<close> is the other thing the browser supplies: a stream of numbers in
  \<open>[0, 1)\<close>, read at a position that every call moves on by one.
\<close>

record host =
  decodeHtml :: "string \<Rightarrow> string"
  Math_random :: "nat \<Rightarrow> real"

subsection \<open>\<open>shuffleArray\<close>\<close>

text \<open>
  \<^verbatim>\<open>const shuffleArray = (array) => { return [...array].sort(() => Math.random() - 0.5); };\<close>

  The comparison function ignores both arguments and draws one random number.
\<close>

definition random_comparefn :: "host \<Rightarrow> 'a \<Rightarrow> 'a \<Rightarrow> nat \<Rightarrow> real \<times> nat" where
  "random_comparefn env a b k = (Math_random env k - 1 / 2, Suc k)"

text \<open>
  \<open>Array.prototype.sort\<close> belongs to the engine. With a comparison function that is
  not consistent, ECMAScript leaves the resulting order to the implementation; what the
  engines share is that they sort by moving elements. The model is a stable insertion
  sort that threads the position of the random stream through the calls of the
  comparison function: a result \<open>\<le> 0\<close> leaves the first argument in front.
\<close>

fun sort_insert ::
  "('a \<Rightarrow> 'a \<Rightarrow> nat \<Rightarrow> real \<times> nat) \<Rightarrow> 'a \<Rightarrow> 'a list \<Rightarrow> nat \<Rightarrow> 'a list \<times> nat" where
  "sort_insert comparefn x [] k = ([x], k)"
| "sort_insert comparefn x (y # ys) k =
     (case comparefn x y k of
        (v, k1) \<Rightarrow>
          if v \<le> 0 then (x # y # ys, k1)
          else (case sort_insert comparefn x ys k1 of (zs, k2) \<Rightarrow> (y # zs, k2)))"

fun array_sort ::
  "('a \<Rightarrow> 'a \<Rightarrow> nat \<Rightarrow> real \<times> nat) \<Rightarrow> 'a list \<Rightarrow> nat \<Rightarrow> 'a list \<times> nat" where
  "array_sort comparefn [] k = ([], k)"
| "array_sort comparefn (x # xs) k =
     (case array_sort comparefn xs k of (ys, k1) \<Rightarrow> sort_insert comparefn x ys k1)"

text \<open>The value \<open>shuffleArray\<close> returns, for an array with the elements \<open>xs\<close>.\<close>

definition shuffleArray :: "host \<Rightarrow> 'a list \<Rightarrow> nat \<Rightarrow> 'a list \<times> nat" where
  "shuffleArray env xs k = array_sort (random_comparefn env) xs k"

text \<open>
  Arrays are objects: \<open>[...array]\<close> allocates a new one and \<open>sort\<close> works in place on
  it. To say what happens to the argument, arrays live in a store, a reference is an
  index into it, and a new array goes to the end. A reference outside the store does
  not exist in JavaScript; reading one gives \<open>None\<close>.
\<close>

type_synonym 'a store = "'a list list"

definition deref :: "'a store \<Rightarrow> nat \<Rightarrow> 'a list option" where
  "deref h r = (if r < length h then Some (h ! r) else None)"

definition alloc :: "'a list \<Rightarrow> 'a store \<Rightarrow> nat \<times> 'a store" where
  "alloc xs h = (length h, h @ [xs])"

definition spread_copy :: "nat \<Rightarrow> 'a store \<Rightarrow> (nat \<times> 'a store) option" where
  "spread_copy r h = (case deref h r of None \<Rightarrow> None | Some xs \<Rightarrow> Some (alloc xs h))"

definition sort_in_place ::
  "('a \<Rightarrow> 'a \<Rightarrow> nat \<Rightarrow> real \<times> nat) \<Rightarrow> nat \<Rightarrow> 'a store \<Rightarrow> nat \<Rightarrow> (nat \<times> 'a store \<times> nat) option" where
  "sort_in_place comparefn r h k =
     (case deref h r of
        None \<Rightarrow> None
      | Some xs \<Rightarrow> (case array_sort comparefn xs k of (ys, k1) \<Rightarrow> Some (r, h[r := ys], k1)))"

definition shuffleArray_ref ::
  "host \<Rightarrow> nat \<Rightarrow> 'a store \<Rightarrow> nat \<Rightarrow> (nat \<times> 'a store \<times> nat) option" where
  "shuffleArray_ref env r h k =
     (case spread_copy r h of
        None \<Rightarrow> None
      | Some (c, h1) \<Rightarrow> sort_in_place (random_comparefn env) c h1 k)"

subsection \<open>Questions\<close>

text \<open>
  An item of \<open>data.results\<close> as the rest of the component reads it, and the item after
  formatting: the spread \<open>...questionItem\<close> keeps every field, three are overwritten
  with their decoded text and \<open>answers\<close> is added.
\<close>

record raw_question =
  question :: string
  correct_answer :: string
  incorrect_answers :: "string list"

record formatted_question = raw_question +
  answers :: "string list"

definition formatQuestion :: "host \<Rightarrow> raw_question \<Rightarrow> nat \<Rightarrow> formatted_question \<times> nat" where
  "formatQuestion env questionItem k =
     (case shuffleArray env
             (map (decodeHtml env) (incorrect_answers questionItem)
                @ [decodeHtml env (correct_answer questionItem)]) k of
        (shuffled, k1) \<Rightarrow>
          (\<lparr> question = decodeHtml env (question questionItem),
             correct_answer = decodeHtml env (correct_answer questionItem),
             incorrect_answers = map (decodeHtml env) (incorrect_answers questionItem),
             answers = shuffled \<rparr>, k1))"

text \<open>\<open>data.results.map(...)\<close>: the items in order, the random stream read on.\<close>

fun formatQuestions :: "host \<Rightarrow> raw_question list \<Rightarrow> nat \<Rightarrow> formatted_question list \<times> nat" where
  "formatQuestions env [] k = ([], k)"
| "formatQuestions env (questionItem # rest) k =
     (case formatQuestion env questionItem k of
        (q, k1) \<Rightarrow> (case formatQuestions env rest k1 of (qs, k2) \<Rightarrow> (q # qs, k2)))"

subsection \<open>The component's state\<close>

datatype game_state = GS_start | GS_active | GS_finished

record app_state =
  gameState :: game_state
  questions :: "formatted_question list"
  currentQuestionIndex :: int
  score :: int
  selectedAnswer :: "string option"
  isAnswered :: bool
  loading :: bool
  error :: "string option"

text \<open>The initial values of the \<open>useState\<close> cells.\<close>

definition initial_state :: app_state where
  "initial_state =
     \<lparr> gameState = GS_start, questions = [], currentQuestionIndex = 0, score = 0,
       selectedAnswer = None, isAnswered = False, loading = False, error = None \<rparr>"

text \<open>
  \<open>questions[currentQuestionIndex]\<close>: an index outside the array reads \<open>undefined\<close>
  in JavaScript, which is \<open>None\<close> here.
\<close>

definition js_index :: "'a list \<Rightarrow> int \<Rightarrow> 'a option" where
  "js_index xs i = (if 0 \<le> i \<and> i < int (length xs) then Some (xs ! nat i) else None)"

subsection \<open>\<open>fetchQuestions\<close>\<close>

text \<open>
  What the network can answer. The promise of \<open>fetch\<close> is rejected with an error that
  has a message, or fulfilled with a response that has a status. The body of a response
  either decodes into the envelope the code reads (\<open>response_code\<close> and \<open>results\<close>),
  or it does not: then \<open>response.json()\<close> is rejected or a property access on the
  decoded value throws, and in both cases the \<open>catch\<close> block receives an error with
  a message. \<open>response_code\<close> is compared with \<open>!== 0\<close>, so a value that is not a
  number differs from \<open>0\<close> as every number but \<open>0\<close> does; \<open>results\<close> is read only
  after that comparison.
\<close>

datatype json_value = JNumber int | JOther

datatype response_body =
    Undecodable string
  | Envelope json_value "raw_question list"

datatype fetch_outcome =
    Rejected string
  | Responded int response_body

text \<open>\<open>response.ok\<close> is the Fetch standard's test of the status.\<close>

definition response_ok :: "int \<Rightarrow> bool" where
  "response_ok status = (200 \<le> status \<and> status \<le> 299)"

definition transport_message :: string where
  "transport_message = ''Something went wrong. Could not fetch questions.''"

definition bank_message :: string where
  "bank_message = ''There was an issue with the trivia API. Please try again later.''"

text \<open>
  The statements before the first \<open>await\<close>, which run inside the call of
  \<open>fetchQuestions\<close>.
\<close>

definition fetchQuestions_begin :: "app_state \<Rightarrow> app_state" where
  "fetchQuestions_begin s =
     s\<lparr> loading := True, error := None, gameState := GS_active,
        selectedAnswer := None, isAnswered := False \<rparr>"

text \<open>
  The \<open>try\<close> block: \<open>Inl\<close> is the message of the error that reaches \<open>catch\<close>,
  \<open>Inr\<close> the formatted questions handed to \<open>setQuestions\<close>.
\<close>

definition fetchQuestions_try ::
  "host \<Rightarrow> fetch_outcome \<Rightarrow> nat \<Rightarrow> string + (formatted_question list \<times> nat)" where
  "fetchQuestions_try env outcome k =
     (case outcome of
        Rejected msg \<Rightarrow> Inl msg
      | Responded status body \<Rightarrow>
          if \<not> response_ok status then Inl transport_message
          else (case body of
                  Undecodable msg \<Rightarrow> Inl msg
                | Envelope response_code results \<Rightarrow>
                    if response_code \<noteq> JNumber 0 then Inl bank_message
                    else Inr (formatQuestions env results k)))"

text \<open>The rest of \<open>fetchQuestions\<close>, run when the network has answered.\<close>

definition fetchQuestions_settle ::
  "host \<Rightarrow> fetch_outcome \<Rightarrow> app_state \<Rightarrow> nat \<Rightarrow> app_state \<times> nat" where
  "fetchQuestions_settle env outcome s k =
     (case fetchQuestions_try env outcome k of
        Inr (formattedQuestions, k1) \<Rightarrow>
          (s\<lparr> questions := formattedQuestions, loading := False \<rparr>, k1)
      | Inl msg \<Rightarrow>
          (s\<lparr> error := Some msg, gameState := GS_start, loading := False \<rparr>, k))"

subsection \<open>The event handlers\<close>

definition handleStartQuiz :: "app_state \<Rightarrow> app_state" where
  "handleStartQuiz s = fetchQuestions_begin (s\<lparr> score := 0, currentQuestionIndex := 0 \<rparr>)"

text \<open>
  \<open>handleAnswerSelect\<close> reads \<open>questions[currentQuestionIndex].correct_answer\<close> after
  its two setter calls. When the index is outside the array the read throws a
  \<open>TypeError\<close>; the updates the setters have queued by then are not withdrawn, React
  applies them with the next render. Both ends of the handler carry the state that
  render sees. React renders after every event before it delivers the next one, so a
  handler reads the state its predecessor left, and a handler is a function of that
  state.
\<close>

datatype handler_result = Returned app_state | TypeError app_state

fun state_after :: "handler_result \<Rightarrow> app_state" where
  "state_after (Returned s) = s"
| "state_after (TypeError s) = s"

fun threw :: "handler_result \<Rightarrow> bool" where
  "threw (Returned s) = False"
| "threw (TypeError s) = True"

definition handleAnswerSelect :: "string \<Rightarrow> app_state \<Rightarrow> handler_result" where
  "handleAnswerSelect answer s =
     (if isAnswered s then Returned s
      else
        let s1 = s\<lparr> selectedAnswer := Some answer, isAnswered := True \<rparr> in
        case js_index (questions s) (currentQuestionIndex s) of
          None \<Rightarrow> TypeError s1
        | Some q \<Rightarrow>
            if answer = correct_answer q then Returned (s1\<lparr> score := score s1 + 1 \<rparr>)
            else Returned s1)"

definition handleNextQuestion :: "app_state \<Rightarrow> app_state" where
  "handleNextQuestion s =
     (if currentQuestionIndex s < int (length (questions s)) - 1
      then s\<lparr> currentQuestionIndex := currentQuestionIndex s + 1,
              selectedAnswer := None, isAnswered := False \<rparr>
      else s\<lparr> gameState := GS_finished \<rparr>)"

subsection \<open>What is on the screen\<close>

text \<open>
  \<open>renderContent\<close>, in the order of its tests. The question screen reads
  \<open>questions[currentQuestionIndex].question\<close>, so with the index outside the array
  rendering itself throws and nothing is shown.
\<close>

datatype screen = Spinner | StartScreen | ResultScreen | QuestionScreen | RenderThrows | Nothing

definition renderContent :: "app_state \<Rightarrow> screen" where
  "renderContent s =
     (if loading s then Spinner
      else if gameState s = GS_start then StartScreen
      else if gameState s = GS_finished then ResultScreen
      else if gameState s = GS_active \<and> length (questions s) > 0 then
        (case js_index (questions s) (currentQuestionIndex s) of
           None \<Rightarrow> RenderThrows
         | Some currentQuestion \<Rightarrow> QuestionScreen)
      else Nothing)"

text \<open>
  The events of the component: a call of one of the three handlers, or the arrival of
  the answer to a fetch.
\<close>

datatype event =
    Start
  | SelectAnswer string
  | NextQuestion
  | FetchSettled fetch_outcome

text \<open>
  The buttons that reach the handlers. \<open>Start Quiz\<close> and \<open>Play Again\<close> call
  \<open>handleStartQuiz\<close>; one button per entry of \<open>currentQuestion.answers\<close> calls
  \<open>handleAnswerSelect\<close> with that entry and is \<open>disabled\<close> once \<open>isAnswered\<close>; the
  button that calls \<open>handleNextQuestion\<close> is rendered only when \<open>isAnswered\<close>.
  The answer to a fetch is not the user's to give and needs no button.
\<close>

fun offered :: "event \<Rightarrow> app_state \<Rightarrow> bool" where
  "offered Start s = (renderContent s = StartScreen \<or> renderContent s = ResultScreen)"
| "offered (SelectAnswer answer) s =
     (renderContent s = QuestionScreen \<and> \<not> isAnswered s
      \<and> (case js_index (questions s) (currentQuestionIndex s) of
            None \<Rightarrow> False
          | Some currentQuestion \<Rightarrow> answer \<in> set (answers currentQuestion)))"
| "offered NextQuestion s = (renderContent s = QuestionScreen \<and> isAnswered s)"
| "offered (FetchSettled outcome) s = True"

text \<open>A click where there is no enabled button does not happen: the state stays.\<close>

definition click_answer :: "string \<Rightarrow> app_state \<Rightarrow> app_state" where
  "click_answer answer s =
     (if offered (SelectAnswer answer) s then state_after (handleAnswerSelect answer s) else s)"

definition click_next :: "app_state \<Rightarrow> app_state" where
  "click_next s = (if offered NextQuestion s then handleNextQuestion s else s)"

subsection \<open>The phases of the specification\<close>

text \<open>
  The specification speaks of one \<open>phase\<close>; the component keeps \<open>loading\<close>,
  \<open>gameState\<close> and \<open>error\<close>. The phase is read off them the way \<open>renderContent\<close>
  does: the spinner while loading, then the start screen (with the error, when there is
  one), the result screen and the question screen.
\<close>

datatype phase = NotStarted | Loading | Active | Finished | Failed

definition phase_of :: "app_state \<Rightarrow> phase" where
  "phase_of s =
     (if loading s then Loading
      else case gameState s of
             GS_start \<Rightarrow> (if error s = None then NotStarted else Failed)
           | GS_finished \<Rightarrow> Finished
           | GS_active \<Rightarrow> Active)"

subsection \<open>Runs\<close>

text \<open>
  Around the component's state there is what the event loop holds: the number of
  fetches whose answer is still to come, and the position of the random stream.
  An answer can only arrive for a fetch that is outstanding. In \<open>step\<close> the handlers
  are called as they are, with no regard to what is on the screen.
\<close>

record world =
  ui :: app_state
  in_flight :: nat
  rng_pos :: nat

definition initial_world :: world where
  "initial_world = \<lparr> ui = initial_state, in_flight = 0, rng_pos = 0 \<rparr>"

fun step :: "host \<Rightarrow> event \<Rightarrow> world \<Rightarrow> world" where
  "step env Start w = w\<lparr> ui := handleStartQuiz (ui w), in_flight := Suc (in_flight w) \<rparr>"
| "step env (SelectAnswer answer) w = w\<lparr> ui := state_after (handleAnswerSelect answer (ui w)) \<rparr>"
| "step env NextQuestion w = w\<lparr> ui := handleNextQuestion (ui w) \<rparr>"
| "step env (FetchSettled outcome) w =
     (if in_flight w = 0 then w
      else case fetchQuestions_settle env outcome (ui w) (rng_pos w) of
             (s, k) \<Rightarrow> \<lparr> ui = s, in_flight = in_flight w - 1, rng_pos = k \<rparr>)"

fun run :: "host \<Rightarrow> event list \<Rightarrow> world \<Rightarrow> world" where
  "run env [] w = w"
| "run env (e # es) w = run env es (step env e w)"

text \<open>The runs a user can cause: an event that the screen does not offer is dropped.\<close>

definition step_ui :: "host \<Rightarrow> event \<Rightarrow> world \<Rightarrow> world" where
  "step_ui env e w = (if offered e (ui w) then step env e w else w)"

fun run_ui :: "host \<Rightarrow> event list \<Rightarrow> world \<Rightarrow> world" where
  "run_ui env [] w = w"
| "run_ui env (e # es) w = run_ui env es (step_ui env e w)"

subsection \<open>A concrete session\<close>

text \<open>
  A host whose random stream alternates between \<open>1/4\<close> and \<open>3/4\<close> and whose entity
  table is empty, the one-question batch of the specification's scenario, the world
  when that batch has arrived, the world when the question has been answered with
  \<open>Paris\<close>, and the world after the quiz has been played to the end.
\<close>

definition demo_host :: host where
  "demo_host = \<lparr> decodeHtml = id, Math_random = (\<lambda>n. if even n then 1 / 4 else 3 / 4) \<rparr>"

definition paris_raw :: raw_question where
  "paris_raw = \<lparr> question = ''Capital of France?'', correct_answer = ''Paris'',
     incorrect_answers = [''London'', ''Berlin'', ''Rome''] \<rparr>"

definition paris_question :: formatted_question where
  "paris_question = \<lparr> question = ''Capital of France?'', correct_answer = ''Paris'',
     incorrect_answers = [''London'', ''Berlin'', ''Rome''],
     answers = [''Rome'', ''London'', ''Berlin'', ''Paris''] \<rparr>"

definition paris_batch :: fetch_outcome where
  "paris_batch = Responded 200 (Envelope (JNumber 0) [paris_raw])"

definition quiz_loaded :: world where
  "quiz_loaded = run demo_host [Start, FetchSettled paris_batch] initial_world"

definition answered :: world where
  "answered = step demo_host (SelectAnswer ''Paris'') quiz_loaded"

definition played_once :: world where
  "played_once = run demo_host [SelectAnswer ''Paris'', NextQuestion] quiz_loaded"

section \<open>Properties\<close>

lemma mset_sort_insert: "mset (fst (sort_insert comparefn x ys k)) = add_mset x (mset ys)"
proof (induction ys arbitrary: k)
  case Nil
  show ?case by simp
next
  case (Cons y ys)
  obtain v k1 where c: "comparefn x y k = (v, k1)"
    by (cases "comparefn x y k")
  obtain zs k2 where r: "sort_insert comparefn x ys k1 = (zs, k2)"
    by (cases "sort_insert comparefn x ys k1")
  from Cons [of k1] r have "mset zs = add_mset x (mset ys)" by simp
  with c r show ?case by simp
qed

lemma mset_array_sort: "mset (fst (array_sort comparefn xs k)) = mset xs"
proof (induction xs arbitrary: k)
  case Nil
  show ?case by simp
next
  case (Cons x xs)
  obtain ys k1 where s: "array_sort comparefn xs k = (ys, k1)"
    by (cases "array_sort comparefn xs k")
  from Cons [of k] s have "mset ys = mset xs" by simp
  with s show ?case by (simp add: mset_sort_insert)
qed

lemmas eval_defs =
  demo_host_def paris_raw_def paris_question_def paris_batch_def quiz_loaded_def
  played_once_def
  initial_world_def initial_state_def handleStartQuiz_def fetchQuestions_begin_def
  fetchQuestions_settle_def fetchQuestions_try_def response_ok_def formatQuestion_def
  shuffleArray_def random_comparefn_def handleAnswerSelect_def handleNextQuestion_def
  js_index_def

lemma quiz_loaded_eq:
  "quiz_loaded = \<lparr> ui = \<lparr> gameState = GS_active, questions = [paris_question],
      currentQuestionIndex = 0, score = 0, selectedAnswer = None,
      isAnswered = False, loading = False, error = None \<rparr>, in_flight = 0, rng_pos = 5 \<rparr>"
  by (simp add: eval_defs)

lemma answered_eq:
  "answered = \<lparr> ui = \<lparr> gameState = GS_active, questions = [paris_question],
      currentQuestionIndex = 0, score = 1, selectedAnswer = Some ''Paris'',
      isAnswered = True, loading = False, error = None \<rparr>, in_flight = 0, rng_pos = 5 \<rparr>"
  by (simp add: answered_def quiz_loaded_eq handleAnswerSelect_def js_index_def paris_question_def)

lemma played_once_eq:
  "played_once = \<lparr> ui = \<lparr> gameState = GS_finished, questions = [paris_question],
      currentQuestionIndex = 0, score = 1, selectedAnswer = Some ''Paris'',
      isAnswered = True, loading = False, error = None \<rparr>, in_flight = 0, rng_pos = 5 \<rparr>"
  by (simp add: eval_defs)

subsection \<open>Shuffling\<close>

lemma mset_shuffleArray: "mset (fst (shuffleArray env xs k)) = mset xs"
  by (simp add: shuffleArray_def mset_array_sort)

text \<open>
  C8. Called with a reference \<open>r\<close> to an array, \<open>shuffleArray\<close> returns a reference
  \<open>c\<close> to a new array that holds the elements of the argument, each as often as the
  argument does, in the order the sort of the random comparisons leaves them; every
  array that existed before the call, the argument among them, is what it was.
\<close>

theorem shuffleArray_permutes_copy:
  assumes "r < length h"
  shows "case shuffleArray_ref env r h k of
           None \<Rightarrow> False
         | Some (c, h', k') \<Rightarrow>
             c \<noteq> r
             \<and> mset (h' ! c) = mset (h ! r)
             \<and> h' ! c = fst (shuffleArray env (h ! r) k)
             \<and> length h' = Suc (length h)
             \<and> (\<forall>r' < length h. h' ! r' = h ! r')"
proof -
  obtain ys k1 where s: "array_sort (random_comparefn env) (h ! r) k = (ys, k1)"
    by (cases "array_sort (random_comparefn env) (h ! r) k")
  have m: "mset ys = mset (h ! r)"
    using mset_array_sort [of "random_comparefn env" "h ! r" k] s by simp
  have e: "shuffleArray_ref env r h k = Some (length h, (h @ [h ! r])[length h := ys], k1)"
    using assms s
    by (simp add: shuffleArray_ref_def spread_copy_def sort_in_place_def deref_def alloc_def)
  have old: "\<forall>r' < length h. ((h @ [h ! r])[length h := ys]) ! r' = h ! r'"
    by (simp add: nth_append)
  show ?thesis
    using assms e m s old by (simp add: shuffleArray_def nth_append)
qed

theorem shuffleArray_permutes_copy_witness:
  "(0::nat) < length [[''a'', ''b'', ''c'']]
   \<and> shuffleArray_ref demo_host 0 [[''a'', ''b'', ''c'']] 0
       = Some (1, [[''a'', ''b'', ''c''], [''b'', ''a'', ''c'']], 3)
   \<and> (case shuffleArray_ref demo_host 0 [[''a'', ''b'', ''c'']] 0 of
           None \<Rightarrow> False
         | Some (c, h', k') \<Rightarrow>
             c \<noteq> 0
             \<and> mset (h' ! c) = mset ([[''a'', ''b'', ''c'']] ! 0)
             \<and> h' ! c = fst (shuffleArray demo_host ([[''a'', ''b'', ''c'']] ! 0) 0)
             \<and> length h' = Suc (length [[''a'', ''b'', ''c'']])
             \<and> (\<forall>r' < length [[''a'', ''b'', ''c'']]. h' ! r' = [[''a'', ''b'', ''c'']] ! r'))"
proof -
  have h: "(0::nat) < length [[''a'', ''b'', ''c'']]" by simp
  have v: "shuffleArray_ref demo_host 0 [[''a'', ''b'', ''c'']] 0
       = Some (1, [[''a'', ''b'', ''c''], [''b'', ''a'', ''c'']], 3)"
    by (simp add: shuffleArray_ref_def spread_copy_def sort_in_place_def deref_def alloc_def
          random_comparefn_def demo_host_def)
  from h v shuffleArray_permutes_copy [OF h, of demo_host 0] show ?thesis by blast
qed

subsection \<open>Formatting\<close>

lemma count_list_distinct: "distinct xs \<Longrightarrow> x \<in> set xs \<Longrightarrow> count_list xs x = 1"
  by (induction xs) auto

text \<open>
  C7. For a raw question with \<open>n\<close> incorrect answers whose answer strings are pairwise
  distinct after decoding, the formatted question has \<open>n + 1\<close> answers, its (decoded)
  correct answer occurs among them exactly once, and the answers are, as a multiset,
  the decoded incorrect answers and the decoded correct answer.
\<close>

theorem formatQuestion_answers:
  assumes "distinct (map (decodeHtml env) (incorrect_answers q @ [correct_answer q]))"
  shows "length (answers (fst (formatQuestion env q k))) = length (incorrect_answers q) + 1
       \<and> count_list (answers (fst (formatQuestion env q k)))
            (correct_answer (fst (formatQuestion env q k))) = 1
       \<and> correct_answer (fst (formatQuestion env q k)) = decodeHtml env (correct_answer q)
       \<and> mset (answers (fst (formatQuestion env q k)))
            = mset (map (decodeHtml env) (incorrect_answers q @ [correct_answer q]))"
proof -
  let ?pool = "map (decodeHtml env) (incorrect_answers q) @ [decodeHtml env (correct_answer q)]"
  obtain ys k1 where s: "shuffleArray env ?pool k = (ys, k1)"
    by (cases "shuffleArray env ?pool k")
  have m: "mset ys = mset ?pool"
    using mset_shuffleArray [of env ?pool k] s by simp
  have a: "answers (fst (formatQuestion env q k)) = ys"
    using s by (simp add: formatQuestion_def)
  have c: "correct_answer (fst (formatQuestion env q k)) = decodeHtml env (correct_answer q)"
    using s by (simp add: formatQuestion_def)
  have "size (mset ys) = size (mset ?pool)"
    using m by simp
  then have len: "length ys = length (incorrect_answers q) + 1"
    by simp
  have d: "distinct ?pool" using assms by simp
  have "count_list ?pool (decodeHtml env (correct_answer q)) = 1"
    using d by (intro count_list_distinct) simp_all
  then have cnt: "count_list ys (decodeHtml env (correct_answer q)) = 1"
    using m by (metis count_mset)
  show ?thesis using a c len cnt m by simp
qed

theorem formatQuestion_answers_witness:
  "distinct (map (decodeHtml demo_host) (incorrect_answers paris_raw @ [correct_answer paris_raw]))
   \<and> fst (formatQuestion demo_host paris_raw 0) = paris_question
   \<and> length (answers (fst (formatQuestion demo_host paris_raw 0))) = 4
   \<and> count_list (answers (fst (formatQuestion demo_host paris_raw 0)))
        (correct_answer (fst (formatQuestion demo_host paris_raw 0))) = 1"
proof -
  have h: "distinct (map (decodeHtml demo_host)
             (incorrect_answers paris_raw @ [correct_answer paris_raw]))"
    by (simp add: demo_host_def paris_raw_def)
  have v: "fst (formatQuestion demo_host paris_raw 0) = paris_question"
    by (simp add: eval_defs)
  have i: "length (incorrect_answers paris_raw) + 1 = 4"
    by (simp add: paris_raw_def)
  from formatQuestion_answers [OF h, of 0] have
    "length (answers (fst (formatQuestion demo_host paris_raw 0)))
       = length (incorrect_answers paris_raw) + 1"
    and "count_list (answers (fst (formatQuestion demo_host paris_raw 0)))
        (correct_answer (fst (formatQuestion demo_host paris_raw 0))) = 1"
    by blast+
  with h v i show ?thesis by presburger
qed

subsection \<open>Starting\<close>

text \<open>
  C1, as the code has it. From every state, \<open>handleStartQuiz\<close> sets the score and the
  index to \<open>0\<close>, clears the selected answer, the lock and the error and turns
  \<open>loading\<close> on, all before the fetch; \<open>questions\<close> is not among the cells it writes
  and stays what it was. When the fetch then fails, the state is the failed one (start
  screen with the error), the score is \<open>0\<close> and the questions are those of the state
  before the start: none if that state had none.
\<close>

theorem start_resets_all_but_questions:
  assumes "fetchQuestions_try env outcome k = Inl msg"
  shows "handleStartQuiz s
           = s\<lparr> score := 0, currentQuestionIndex := 0, loading := True, error := None,
                gameState := GS_active, selectedAnswer := None, isAnswered := False \<rparr>
       \<and> questions (handleStartQuiz s) = questions s
       \<and> phase_of (handleStartQuiz s) = Loading
       \<and> fetchQuestions_settle env outcome (handleStartQuiz s) k
           = (s\<lparr> score := 0, currentQuestionIndex := 0, loading := False, error := Some msg,
                 gameState := GS_start, selectedAnswer := None, isAnswered := False \<rparr>, k)
       \<and> phase_of (fst (fetchQuestions_settle env outcome (handleStartQuiz s) k)) = Failed
       \<and> score (fst (fetchQuestions_settle env outcome (handleStartQuiz s) k)) = 0
       \<and> questions (fst (fetchQuestions_settle env outcome (handleStartQuiz s) k)) = questions s"
  using assms
  by (simp add: handleStartQuiz_def fetchQuestions_begin_def fetchQuestions_settle_def phase_of_def)

theorem start_resets_all_but_questions_witness:
  "fetchQuestions_try demo_host (Responded 500 (Undecodable [])) 5 = Inl transport_message
   \<and> questions initial_state = []
   \<and> questions (fst (fetchQuestions_settle demo_host (Responded 500 (Undecodable []))
        (handleStartQuiz initial_state) 5)) = questions initial_state
   \<and> score (fst (fetchQuestions_settle demo_host (Responded 500 (Undecodable []))
        (handleStartQuiz initial_state) 5)) = 0
   \<and> phase_of (fst (fetchQuestions_settle demo_host (Responded 500 (Undecodable []))
        (handleStartQuiz initial_state) 5)) = Failed"
proof -
  have h: "fetchQuestions_try demo_host (Responded 500 (Undecodable [])) 5 = Inl transport_message"
    by (simp add: fetchQuestions_try_def response_ok_def)
  have q: "questions initial_state = []" by (simp add: initial_state_def)
  from start_resets_all_but_questions [OF h, of initial_state] h q show ?thesis by blast
qed

text \<open>
  Worded with ``resets \<open>questions\<close>'' the statement fails: after a quiz that has been
  played, a new start keeps the old question, and so does the failed state that a
  response with status 500 leads to.
\<close>

theorem start_keeps_questions_counterexample:
  "questions (handleStartQuiz (ui played_once)) = [paris_question]
   \<and> phase_of (ui (run demo_host [Start, FetchSettled (Responded 500 (Undecodable []))] played_once)) = Failed
   \<and> questions (ui (run demo_host [Start, FetchSettled (Responded 500 (Undecodable []))] played_once)) = [paris_question]
   \<and> [paris_question] \<noteq> []"
  by (simp add: played_once_eq handleStartQuiz_def fetchQuestions_begin_def
        fetchQuestions_settle_def fetchQuestions_try_def response_ok_def phase_of_def)

subsection \<open>Selecting an answer\<close>

text \<open>
  C3, as the code has it. \<open>handleAnswerSelect\<close> tests \<open>isAnswered\<close> and nothing else:
  in every locked state it returns at once and changes nothing, whatever the answer, so
  of two calls in a row the second changes nothing and only the first can count. The
  phase is tested by what is drawn: an answer button exists only on the question
  screen and is disabled once locked, so a click in a state that is locked or not
  active changes nothing either.
\<close>

theorem handleAnswerSelect_locked:
  "(isAnswered s \<longrightarrow> handleAnswerSelect answer s = Returned s)
   \<and> handleAnswerSelect answer' (state_after (handleAnswerSelect answer s))
        = Returned (state_after (handleAnswerSelect answer s))
   \<and> (isAnswered s \<or> phase_of s \<noteq> Active \<longrightarrow> click_answer answer s = s)"
  by (auto simp: handleAnswerSelect_def click_answer_def renderContent_def phase_of_def Let_def
        split: option.splits game_state.splits if_splits)


theorem handleAnswerSelect_locked_witness:
  "isAnswered (ui played_once)
   \<and> phase_of (ui played_once) = Finished
   \<and> handleAnswerSelect ''Rome'' (ui played_once) = Returned (ui played_once)
   \<and> click_answer ''Rome'' (ui played_once) = ui played_once
   \<and> score (state_after (handleAnswerSelect ''Paris'' (ui quiz_loaded))) = 1
   \<and> score (state_after (handleAnswerSelect ''Paris''
        (state_after (handleAnswerSelect ''Paris'' (ui quiz_loaded))))) = 1"
proof -
  have h: "isAnswered (ui played_once)" and p: "phase_of (ui played_once) = Finished"
    by (simp_all add: played_once_eq phase_of_def)
  have v: "score (state_after (handleAnswerSelect ''Paris'' (ui quiz_loaded))) = 1"
    by (simp add: quiz_loaded_eq handleAnswerSelect_def js_index_def paris_question_def)
  from handleAnswerSelect_locked [of "ui quiz_loaded" "''Paris''" "''Paris''"]
  have "handleAnswerSelect ''Paris'' (state_after (handleAnswerSelect ''Paris'' (ui quiz_loaded)))
        = Returned (state_after (handleAnswerSelect ''Paris'' (ui quiz_loaded)))"
    by blast
  then have w: "score (state_after (handleAnswerSelect ''Paris''
        (state_after (handleAnswerSelect ''Paris'' (ui quiz_loaded))))) = 1"
    using v by simp
  from handleAnswerSelect_locked [of "ui played_once" "''Rome''" "''Rome''"] h p v w
  show ?thesis by blast
qed

text \<open>
  For the handler itself the part about the phase fails. After a finished quiz a new
  start leaves the old question in place while the new fetch is loading; called in that
  state with \<open>Paris\<close>, the handler counts a point.
\<close>

theorem handleAnswerSelect_phase_counterexample:
  "phase_of (ui (step demo_host Start played_once)) = Loading
   \<and> score (ui (step demo_host Start played_once)) = 0
   \<and> score (state_after (handleAnswerSelect ''Paris'' (ui (step demo_host Start played_once)))) = 1
   \<and> state_after (handleAnswerSelect ''Paris'' (ui (step demo_host Start played_once)))
        \<noteq> ui (step demo_host Start played_once)"
  by (simp add: played_once_eq handleStartQuiz_def fetchQuestions_begin_def phase_of_def
        handleAnswerSelect_def js_index_def paris_question_def)

text \<open>
  C4. In every active, unlocked state \<open>handleAnswerSelect\<close> sets \<open>selectedAnswer\<close> to
  the answer and \<open>isAnswered\<close> to true, and adds \<open>1\<close> to the score exactly when the
  answer equals the \<open>correct_answer\<close> of \<open>questions[currentQuestionIndex]\<close>; otherwise
  the score stays. No other cell changes. (Where there is no such question the handler
  ends in the \<open>TypeError\<close>, with the two cells set and the score as it was.)
\<close>

theorem handleAnswerSelect_active:
  assumes "phase_of s = Active" and "\<not> isAnswered s"
  shows "state_after (handleAnswerSelect answer s)
           = s\<lparr> selectedAnswer := Some answer, isAnswered := True,
                score := score s +
                  (if map_option correct_answer
                        (js_index (questions s) (currentQuestionIndex s)) = Some answer
                   then 1 else 0) \<rparr>
       \<and> (threw (handleAnswerSelect answer s)
            \<longleftrightarrow> js_index (questions s) (currentQuestionIndex s) = None)"
  using assms by (simp add: handleAnswerSelect_def Let_def split: option.splits)

theorem handleAnswerSelect_active_witness:
  "phase_of (ui quiz_loaded) = Active \<and> \<not> isAnswered (ui quiz_loaded)
   \<and> state_after (handleAnswerSelect ''Paris'' (ui quiz_loaded))
       = (ui quiz_loaded)\<lparr> selectedAnswer := Some ''Paris'', isAnswered := True,
            score := score (ui quiz_loaded) +
              (if map_option correct_answer
                    (js_index (questions (ui quiz_loaded)) (currentQuestionIndex (ui quiz_loaded)))
                  = Some ''Paris''
               then 1 else 0) \<rparr>
   \<and> score (state_after (handleAnswerSelect ''Paris'' (ui quiz_loaded))) = 1
   \<and> score (state_after (handleAnswerSelect ''Rome'' (ui quiz_loaded))) = 0"
proof -
  have h1: "phase_of (ui quiz_loaded) = Active" and h2: "\<not> isAnswered (ui quiz_loaded)"
    by (simp_all add: quiz_loaded_eq phase_of_def)
  have v: "score (state_after (handleAnswerSelect ''Paris'' (ui quiz_loaded))) = 1"
     "score (state_after (handleAnswerSelect ''Rome'' (ui quiz_loaded))) = 0"
    by (simp_all add: quiz_loaded_eq handleAnswerSelect_def js_index_def paris_question_def)
  from handleAnswerSelect_active [OF h1 h2, of "''Paris''"] h1 h2 v show ?thesis by blast
qed

subsection \<open>Advancing\<close>

text \<open>
  C2, as the code has it. \<open>handleNextQuestion\<close> has no test of the phase or of the
  lock. In every state with the index before the last question it adds \<open>1\<close> to the
  index and clears the selected answer and the lock; in every other state it sets the
  game state to \<open>finished\<close>, which is the finished phase unless a fetch is loading
  (the spinner stays then); in no state does it touch the score or the questions. The
  test is in what is drawn: the button that calls it exists exactly when the phase is
  active, the question is locked and \<open>questions[currentQuestionIndex]\<close> exists. A
  click then is the call of the handler, and in every state that is not active or not
  locked a click changes no cell.
\<close>

theorem next_button_guard:
  "(phase_of s \<noteq> Active \<or> \<not> isAnswered s \<longrightarrow> click_next s = s)
   \<and> click_next s
        = (if phase_of s = Active \<and> isAnswered s
              \<and> js_index (questions s) (currentQuestionIndex s) \<noteq> None
           then handleNextQuestion s else s)
   \<and> (currentQuestionIndex s < int (length (questions s)) - 1 \<longrightarrow>
         handleNextQuestion s
           = s\<lparr> currentQuestionIndex := currentQuestionIndex s + 1,
                selectedAnswer := None, isAnswered := False \<rparr>)
   \<and> (\<not> currentQuestionIndex s < int (length (questions s)) - 1 \<longrightarrow>
         handleNextQuestion s = s\<lparr> gameState := GS_finished \<rparr>
         \<and> phase_of (handleNextQuestion s) = (if loading s then Loading else Finished))
   \<and> score (handleNextQuestion s) = score s
   \<and> questions (handleNextQuestion s) = questions s"
proof (intro conjI impI)
  assume "phase_of s \<noteq> Active \<or> \<not> isAnswered s"
  then show "click_next s = s"
    by (auto simp: click_next_def renderContent_def phase_of_def
          split: game_state.splits if_splits option.splits)
next
  show "click_next s
        = (if phase_of s = Active \<and> isAnswered s
              \<and> js_index (questions s) (currentQuestionIndex s) \<noteq> None
           then handleNextQuestion s else s)"
    by (cases "gameState s")
       (auto simp: click_next_def renderContent_def phase_of_def js_index_def
          split: if_splits option.splits)
next
  assume "currentQuestionIndex s < int (length (questions s)) - 1"
  then show "handleNextQuestion s
           = s\<lparr> currentQuestionIndex := currentQuestionIndex s + 1,
                selectedAnswer := None, isAnswered := False \<rparr>"
    by (simp add: handleNextQuestion_def)
next
  assume "\<not> currentQuestionIndex s < int (length (questions s)) - 1"
  then show "handleNextQuestion s = s\<lparr> gameState := GS_finished \<rparr>"
    by (simp add: handleNextQuestion_def)
next
  assume "\<not> currentQuestionIndex s < int (length (questions s)) - 1"
  then show "phase_of (handleNextQuestion s) = (if loading s then Loading else Finished)"
    by (simp add: handleNextQuestion_def phase_of_def)
next
  show "score (handleNextQuestion s) = score s"
    by (simp add: handleNextQuestion_def)
next
  show "questions (handleNextQuestion s) = questions s"
    by (simp add: handleNextQuestion_def)
qed

theorem next_button_guard_witness:
  "phase_of initial_state = NotStarted
   \<and> click_next initial_state = initial_state
   \<and> phase_of (ui quiz_loaded) = Active \<and> \<not> isAnswered (ui quiz_loaded)
   \<and> click_next (ui quiz_loaded) = ui quiz_loaded
   \<and> handleNextQuestion (ui quiz_loaded) = (ui quiz_loaded)\<lparr> gameState := GS_finished \<rparr>
   \<and> phase_of (ui (step demo_host Start played_once)) = Loading
   \<and> click_next (ui (step demo_host Start played_once)) = ui (step demo_host Start played_once)
   \<and> phase_of (handleNextQuestion (ui (step demo_host Start played_once))) = Loading
   \<and> phase_of (ui answered) = Active \<and> isAnswered (ui answered)
   \<and> click_next (ui answered) = (ui answered)\<lparr> gameState := GS_finished \<rparr>
   \<and> phase_of (click_next (ui answered)) = Finished"
proof -
  have p0: "phase_of initial_state = NotStarted"
    by (simp add: initial_state_def phase_of_def)
  then have h0: "phase_of initial_state \<noteq> Active \<or> \<not> isAnswered initial_state"
    by simp
  from next_button_guard [of initial_state] h0
  have c0: "click_next initial_state = initial_state" by blast
  have p1: "phase_of (ui quiz_loaded) = Active" and l1: "\<not> isAnswered (ui quiz_loaded)"
    and i1: "\<not> currentQuestionIndex (ui quiz_loaded)
                 < int (length (questions (ui quiz_loaded))) - 1"
    by (simp_all add: quiz_loaded_eq phase_of_def)
  from l1 have h1: "phase_of (ui quiz_loaded) \<noteq> Active \<or> \<not> isAnswered (ui quiz_loaded)"
    by blast
  from next_button_guard [of "ui quiz_loaded"] h1 i1
  have c1: "click_next (ui quiz_loaded) = ui quiz_loaded"
    and n1: "handleNextQuestion (ui quiz_loaded) = (ui quiz_loaded)\<lparr> gameState := GS_finished \<rparr>"
    by blast+
  let ?s = "ui (step demo_host Start played_once)"
  have p2: "phase_of ?s = Loading" and ld: "loading ?s"
    and i2: "\<not> currentQuestionIndex ?s < int (length (questions ?s)) - 1"
    by (simp_all add: played_once_eq handleStartQuiz_def fetchQuestions_begin_def phase_of_def)
  from p2 have h2: "phase_of ?s \<noteq> Active \<or> \<not> isAnswered ?s" by simp
  from next_button_guard [of ?s] h2
  have c2: "click_next ?s = ?s" by blast
  from next_button_guard [of ?s] i2
  have "phase_of (handleNextQuestion ?s) = (if loading ?s then Loading else Finished)"
    by blast
  with ld have n2: "phase_of (handleNextQuestion ?s) = Loading"
    by (simp only: if_True)
  have p3: "phase_of (ui answered) = Active" and l3: "isAnswered (ui answered)"
    and i3: "\<not> currentQuestionIndex (ui answered) < int (length (questions (ui answered))) - 1"
    and j3: "js_index (questions (ui answered)) (currentQuestionIndex (ui answered)) \<noteq> None"
    and nl: "\<not> loading (ui answered)"
    by (simp_all add: answered_eq phase_of_def js_index_def)
  from next_button_guard [of "ui answered"]
  have "click_next (ui answered)
        = (if phase_of (ui answered) = Active \<and> isAnswered (ui answered)
              \<and> js_index (questions (ui answered)) (currentQuestionIndex (ui answered)) \<noteq> None
           then handleNextQuestion (ui answered) else ui answered)"
    by blast
  with p3 l3 j3 have e3: "click_next (ui answered) = handleNextQuestion (ui answered)"
    by (simp only: simp_thms if_True)
  from next_button_guard [of "ui answered"] i3
  have f3: "handleNextQuestion (ui answered) = (ui answered)\<lparr> gameState := GS_finished \<rparr>"
    and "phase_of (handleNextQuestion (ui answered))
           = (if loading (ui answered) then Loading else Finished)"
    by blast+
  with nl have g3: "phase_of (handleNextQuestion (ui answered)) = Finished"
    by (simp only: if_False)
  from e3 f3 have c3: "click_next (ui answered) = (ui answered)\<lparr> gameState := GS_finished \<rparr>"
    by (rule trans)
  from e3 g3 have n3: "phase_of (click_next (ui answered)) = Finished"
    by (simp only:)
  from p0 c0 p1 l1 c1 n1 p2 c2 n2 p3 l3 c3 n3 show ?thesis by blast
qed

text \<open>
  The handler called in the initial state, which is neither active nor locked, sets
  \<open>finished\<close>.
\<close>

theorem handleNextQuestion_unguarded_counterexample:
  "phase_of initial_state = NotStarted
   \<and> \<not> isAnswered initial_state
   \<and> handleNextQuestion initial_state \<noteq> initial_state
   \<and> phase_of (handleNextQuestion initial_state) = Finished"
  by (simp add: initial_state_def handleNextQuestion_def phase_of_def)

lemma finished_step_id:
  assumes "gameState (ui w) = GS_finished" and "isAnswered (ui w)"
    and "\<not> currentQuestionIndex (ui w) < int (length (questions (ui w))) - 1"
    and "in_flight w = 0" and "e \<noteq> Start"
  shows "step env e w = w"
proof (cases e)
  case Start
  with assms show ?thesis by simp
next
  case (SelectAnswer a)
  with assms show ?thesis by (simp add: handleAnswerSelect_def)
next
  case NextQuestion
  have "(ui w)\<lparr> gameState := GS_finished \<rparr> = ui w"
    using assms(1) by (cases "ui w") simp
  with NextQuestion assms show ?thesis by (simp add: handleNextQuestion_def)
next
  case (FetchSettled outcome)
  with assms show ?thesis by simp
qed

lemma finished_run_id:
  assumes "gameState (ui w) = GS_finished" and "isAnswered (ui w)"
    and "\<not> currentQuestionIndex (ui w) < int (length (questions (ui w))) - 1"
    and "in_flight w = 0" and "Start \<notin> set es"
  shows "run env es w = w"
  using assms
proof (induction es)
  case Nil
  show ?case by simp
next
  case (Cons e es)
  then have "step env e w = w" by (intro finished_step_id) auto
  with Cons show ?case by simp
qed

text \<open>
  C5. In every active, locked state: before the last question \<open>handleNextQuestion\<close>
  adds \<open>1\<close> to the index and clears the selected answer and the lock; otherwise it
  sets \<open>finished\<close>, and from then on, with no fetch outstanding, no sequence of
  answers, advances and arrivals changes the score, or anything else, until the quiz is
  started again.
\<close>

theorem handleNextQuestion_active:
  assumes "phase_of (ui w) = Active" and "isAnswered (ui w)"
  shows "(currentQuestionIndex (ui w) < int (length (questions (ui w))) - 1 \<longrightarrow>
            handleNextQuestion (ui w)
              = (ui w)\<lparr> currentQuestionIndex := currentQuestionIndex (ui w) + 1,
                         selectedAnswer := None, isAnswered := False \<rparr>)
       \<and> (\<not> currentQuestionIndex (ui w) < int (length (questions (ui w))) - 1 \<longrightarrow>
            handleNextQuestion (ui w) = (ui w)\<lparr> gameState := GS_finished \<rparr>
            \<and> phase_of (handleNextQuestion (ui w)) = Finished
            \<and> (in_flight w = 0 \<and> Start \<notin> set es \<longrightarrow>
                 run env es (step env NextQuestion w) = step env NextQuestion w
                 \<and> score (ui (run env es (step env NextQuestion w))) = score (ui w)
                 \<and> phase_of (ui (run env es (step env NextQuestion w))) = Finished))"
proof (intro conjI impI)
  assume "currentQuestionIndex (ui w) < int (length (questions (ui w))) - 1"
  then show "handleNextQuestion (ui w)
              = (ui w)\<lparr> currentQuestionIndex := currentQuestionIndex (ui w) + 1,
                         selectedAnswer := None, isAnswered := False \<rparr>"
    by (simp add: handleNextQuestion_def)
next
  assume last: "\<not> currentQuestionIndex (ui w) < int (length (questions (ui w))) - 1"
  then show "handleNextQuestion (ui w) = (ui w)\<lparr> gameState := GS_finished \<rparr>"
    by (simp add: handleNextQuestion_def)
next
  assume last: "\<not> currentQuestionIndex (ui w) < int (length (questions (ui w))) - 1"
  have "\<not> loading (ui w)"
    using assms(1) by (simp add: phase_of_def split: if_splits)
  with last show "phase_of (handleNextQuestion (ui w)) = Finished"
    by (simp add: handleNextQuestion_def phase_of_def)
next
  assume last: "\<not> currentQuestionIndex (ui w) < int (length (questions (ui w))) - 1"
    and run: "in_flight w = 0 \<and> Start \<notin> set es"
  have nl: "\<not> loading (ui w)"
    using assms(1) by (simp add: phase_of_def split: if_splits)
  have b: "ui (step env NextQuestion w) = (ui w)\<lparr> gameState := GS_finished \<rparr>"
    using last by (simp add: handleNextQuestion_def)
  have f: "in_flight (step env NextQuestion w) = 0"
    using run by simp
  have frozen: "run env es (step env NextQuestion w) = step env NextQuestion w"
    using run last assms(2) by (intro finished_run_id) (simp_all add: handleNextQuestion_def)
  show "run env es (step env NextQuestion w) = step env NextQuestion w"
    by (rule frozen)
  show "score (ui (run env es (step env NextQuestion w))) = score (ui w)"
    by (simp only: frozen b) simp
  show "phase_of (ui (run env es (step env NextQuestion w))) = Finished"
    using nl by (simp only: frozen b) (simp add: phase_of_def)
qed

theorem handleNextQuestion_active_witness:
  "phase_of (ui answered) = Active \<and> isAnswered (ui answered)
   \<and> \<not> currentQuestionIndex (ui answered) < int (length (questions (ui answered))) - 1
   \<and> in_flight answered = 0
   \<and> Start \<notin> set [SelectAnswer ''Rome'', NextQuestion, FetchSettled paris_batch]
   \<and> phase_of (handleNextQuestion (ui answered)) = Finished
   \<and> score (ui (run demo_host [SelectAnswer ''Rome'', NextQuestion, FetchSettled paris_batch]
        (step demo_host NextQuestion answered))) = score (ui answered)
   \<and> score (ui answered) = 1"
proof -
  have h1: "phase_of (ui answered) = Active" and h2: "isAnswered (ui answered)"
    and h3: "\<not> currentQuestionIndex (ui answered) < int (length (questions (ui answered))) - 1"
    and h4: "in_flight answered = 0" and v: "score (ui answered) = 1"
    by (simp_all add: answered_eq phase_of_def)
  have h5: "Start \<notin> set [SelectAnswer ''Rome'', NextQuestion, FetchSettled paris_batch]"
    by simp
  from handleNextQuestion_active [OF h1 h2,
      of "[SelectAnswer ''Rome'', NextQuestion, FetchSettled paris_batch]" demo_host]
    h1 h2 h3 h4 h5 v
  show ?thesis by blast
qed

subsection \<open>The score\<close>

lemma step_score_bound:
  assumes "0 \<le> score (ui w)"
    and "score (ui w) \<le> currentQuestionIndex (ui w) + (if isAnswered (ui w) then 1 else 0)"
  shows "0 \<le> score (ui (step env e w))
       \<and> score (ui (step env e w))
           \<le> currentQuestionIndex (ui (step env e w))
              + (if isAnswered (ui (step env e w)) then 1 else 0)"
proof (cases e)
  case Start
  then show ?thesis by (simp add: handleStartQuiz_def fetchQuestions_begin_def)
next
  case (SelectAnswer a)
  with assms show ?thesis
    by (simp add: handleAnswerSelect_def Let_def split: option.splits if_splits)
next
  case NextQuestion
  with assms show ?thesis
    by (simp add: handleNextQuestion_def split: if_splits)
next
  case (FetchSettled outcome)
  with assms show ?thesis
    by (simp add: fetchQuestions_settle_def split: sum.splits prod.splits if_splits)
qed

lemma run_score_bound:
  assumes "0 \<le> score (ui w)"
    and "score (ui w) \<le> currentQuestionIndex (ui w) + (if isAnswered (ui w) then 1 else 0)"
  shows "0 \<le> score (ui (run env es w))
       \<and> score (ui (run env es w))
           \<le> currentQuestionIndex (ui (run env es w))
              + (if isAnswered (ui (run env es w)) then 1 else 0)"
  using assms
proof (induction es arbitrary: w)
  case Nil
  then show ?case by simp
next
  case (Cons e es)
  from step_score_bound [OF Cons.prems, of env e]
  have "0 \<le> score (ui (step env e w))"
    and "score (ui (step env e w))
           \<le> currentQuestionIndex (ui (step env e w))
              + (if isAnswered (ui (step env e w)) then 1 else 0)"
    by blast+
  from Cons.IH [OF this] show ?case by simp
qed

lemma step_score_mono:
  assumes "e \<noteq> Start"
  shows "score (ui w) \<le> score (ui (step env e w))"
proof (cases e)
  case Start
  with assms show ?thesis by simp
next
  case (SelectAnswer a)
  then show ?thesis
    by (simp add: handleAnswerSelect_def Let_def split: option.splits)
next
  case NextQuestion
  then show ?thesis by (simp add: handleNextQuestion_def)
next
  case (FetchSettled outcome)
  then show ?thesis
    by (simp add: fetchQuestions_settle_def split: sum.splits prod.splits)
qed

text \<open>
  C6. In every state that a sequence of starts, selected answers, advances and arrivals
  of fetch answers leads to from the initial state, the score is at most the index plus
  \<open>1\<close> if locked, and is not negative; a step that is not a start does not lower it,
  so the only step that can is the start, which sets it to \<open>0\<close>.
\<close>

theorem score_invariant:
  "score (ui (run env es initial_world))
     \<le> currentQuestionIndex (ui (run env es initial_world))
        + (if isAnswered (ui (run env es initial_world)) then 1 else 0)
   \<and> 0 \<le> score (ui (run env es initial_world))
   \<and> (e \<noteq> Start \<longrightarrow>
        score (ui (run env es initial_world))
          \<le> score (ui (step env e (run env es initial_world))))
   \<and> (score (ui (step env e (run env es initial_world)))
          < score (ui (run env es initial_world)) \<longrightarrow> e = Start)
   \<and> score (ui (step env Start (run env es initial_world))) = 0"
proof -
  have i: "0 \<le> score (ui initial_world)"
    "score (ui initial_world)
       \<le> currentQuestionIndex (ui initial_world) + (if isAnswered (ui initial_world) then 1 else 0)"
    by (simp_all add: initial_world_def initial_state_def)
  note b = run_score_bound [OF i, of env es]
  have m: "e \<noteq> Start \<Longrightarrow>
        score (ui (run env es initial_world))
          \<le> score (ui (step env e (run env es initial_world)))"
    by (rule step_score_mono)
  have z: "score (ui (step env Start (run env es initial_world))) = 0"
    by (simp add: handleStartQuiz_def fetchQuestions_begin_def)
  from m have d: "score (ui (step env e (run env es initial_world)))
          < score (ui (run env es initial_world)) \<Longrightarrow> e = Start"
    by fastforce
  from b m d z show ?thesis by blast
qed

theorem score_invariant_witness:
  "NextQuestion \<noteq> Start
   \<and> run demo_host [Start, FetchSettled paris_batch, SelectAnswer ''Paris''] initial_world = answered
   \<and> score (ui (run demo_host [Start, FetchSettled paris_batch, SelectAnswer ''Paris''] initial_world))
       \<le> score (ui (step demo_host NextQuestion
            (run demo_host [Start, FetchSettled paris_batch, SelectAnswer ''Paris''] initial_world)))
   \<and> score (ui answered) = 1
   \<and> score (ui (step demo_host Start answered)) < score (ui answered)"
proof -
  have h: "NextQuestion \<noteq> Start" by simp
  have r: "run demo_host [Start, FetchSettled paris_batch, SelectAnswer ''Paris''] initial_world
            = answered"
    by (simp add: answered_def quiz_loaded_def)
  have v: "score (ui answered) = 1"
    "score (ui (step demo_host Start answered)) < score (ui answered)"
    by (simp_all add: answered_eq handleStartQuiz_def fetchQuestions_begin_def)
  from score_invariant
    [of demo_host "[Start, FetchSettled paris_batch, SelectAnswer ''Paris'']" NextQuestion]
    h r v
  show ?thesis by blast
qed

subsection \<open>Fetching\<close>

lemma fetchQuestions_try_success:
  "(\<exists>r. fetchQuestions_try env outcome k = Inr r)
     \<longleftrightarrow> (\<exists>status results. outcome = Responded status (Envelope (JNumber 0) results)
                              \<and> response_ok status)"
  by (auto simp: fetchQuestions_try_def split: fetch_outcome.splits response_body.splits)

lemma fetchQuestions_try_yield:
  "fetchQuestions_try env outcome k = Inr r
     \<longleftrightarrow> (\<exists>status results. outcome = Responded status (Envelope (JNumber 0) results)
                              \<and> response_ok status \<and> r = formatQuestions env results k)"
  by (auto simp: fetchQuestions_try_def split: fetch_outcome.splits response_body.splits)

lemma formatQuestion_fields:
  "question (fst (formatQuestion env r k)) = decodeHtml env (question r)
   \<and> correct_answer (fst (formatQuestion env r k)) = decodeHtml env (correct_answer r)
   \<and> incorrect_answers (fst (formatQuestion env r k))
        = map (decodeHtml env) (incorrect_answers r)
   \<and> mset (answers (fst (formatQuestion env r k)))
        = mset (map (decodeHtml env) (incorrect_answers r @ [correct_answer r]))"
proof -
  let ?pool = "map (decodeHtml env) (incorrect_answers r) @ [decodeHtml env (correct_answer r)]"
  obtain ys k1 where s: "shuffleArray env ?pool k = (ys, k1)"
    by (cases "shuffleArray env ?pool k")
  have "mset ys = mset ?pool"
    using mset_shuffleArray [of env ?pool k] s by simp
  with s show ?thesis by (simp add: formatQuestion_def)
qed

lemma formatQuestions_formats:
  "list_all2
     (\<lambda>r q. question q = decodeHtml env (question r)
           \<and> correct_answer q = decodeHtml env (correct_answer r)
           \<and> incorrect_answers q = map (decodeHtml env) (incorrect_answers r)
           \<and> mset (answers q) = mset (map (decodeHtml env) (incorrect_answers r @ [correct_answer r])))
     results (fst (formatQuestions env results k))"
proof (induction results arbitrary: k)
  case Nil
  show ?case by simp
next
  case (Cons r rs)
  obtain q k1 where f: "formatQuestion env r k = (q, k1)"
    by (cases "formatQuestion env r k")
  obtain qs k2 where g: "formatQuestions env rs k1 = (qs, k2)"
    by (cases "formatQuestions env rs k1")
  from formatQuestion_fields [of env r k] f
  have h: "question q = decodeHtml env (question r)
           \<and> correct_answer q = decodeHtml env (correct_answer r)
           \<and> incorrect_answers q = map (decodeHtml env) (incorrect_answers r)
           \<and> mset (answers q) = mset (map (decodeHtml env) (incorrect_answers r @ [correct_answer r]))"
    by simp
  from Cons [of k1] g have t: "list_all2
     (\<lambda>r q. question q = decodeHtml env (question r)
           \<and> correct_answer q = decodeHtml env (correct_answer r)
           \<and> incorrect_answers q = map (decodeHtml env) (incorrect_answers r)
           \<and> mset (answers q) = mset (map (decodeHtml env) (incorrect_answers r @ [correct_answer r])))
     rs qs" by simp
  from f g h t show ?case by simp
qed


text \<open>
  C9. For every answer of the network, the \<open>try\<close> block hands over questions exactly
  when the status is a success status and the body is an envelope with
  \<open>response_code\<close> \<open>0\<close>. What it hands over is then the formatted \<open>results\<close>: one
  question per item and in the items' order (so none for an empty \<open>results\<close>), each
  with the decoded question text, correct answer and incorrect answers of its item and,
  as answers, the decoded incorrect and correct answers in some order. Settling such a
  fetch stores exactly these in \<open>questions\<close>, turns \<open>loading\<close> off and leaves the
  error and the game state alone, so that after a start the phase is active. A status
  outside 200 to 299 ends in the error with the transport message, and a
  \<open>response_code\<close> other than \<open>0\<close> in the error with the message about the trivia
  API. Whatever the error, settling the fetch stores its message in \<open>error\<close> and shows
  the start screen with it, and the fetch is gone from the outstanding ones with no
  other put in its place.
\<close>

theorem fetchQuestions_outcomes:
  "((\<exists>r. fetchQuestions_try env outcome k = Inr r)
      \<longleftrightarrow> (\<exists>status results. outcome = Responded status (Envelope (JNumber 0) results)
                               \<and> response_ok status))
   \<and> (fetchQuestions_try env outcome k = Inr r
      \<longleftrightarrow> (\<exists>status results. outcome = Responded status (Envelope (JNumber 0) results)
                               \<and> response_ok status \<and> r = formatQuestions env results k))
   \<and> (response_ok status \<longrightarrow>
         fetchQuestions_try env (Responded status (Envelope (JNumber 0) results)) k
           = Inr (formatQuestions env results k))
   \<and> length (fst (formatQuestions env results k)) = length results
   \<and> list_all2
        (\<lambda>questionItem q.
            question q = decodeHtml env (question questionItem)
          \<and> correct_answer q = decodeHtml env (correct_answer questionItem)
          \<and> incorrect_answers q = map (decodeHtml env) (incorrect_answers questionItem)
          \<and> mset (answers q)
              = mset (map (decodeHtml env)
                        (incorrect_answers questionItem @ [correct_answer questionItem])))
        results (fst (formatQuestions env results k))
   \<and> (response_ok status \<and> in_flight w > 0 \<longrightarrow>
         step env (FetchSettled (Responded status (Envelope (JNumber 0) results))) w
           = \<lparr> ui = (ui w)\<lparr> questions := fst (formatQuestions env results (rng_pos w)),
                           loading := False \<rparr>,
               in_flight = in_flight w - 1,
               rng_pos = snd (formatQuestions env results (rng_pos w)) \<rparr>
         \<and> questions (ui (step env
               (FetchSettled (Responded status (Envelope (JNumber 0) results))) w))
             = fst (formatQuestions env results (rng_pos w))
         \<and> error (ui (step env
               (FetchSettled (Responded status (Envelope (JNumber 0) results))) w))
             = error (ui w)
         \<and> phase_of (ui (step env
               (FetchSettled (Responded status (Envelope (JNumber 0) results))) w))
             = (case gameState (ui w) of
                  GS_active \<Rightarrow> Active
                | GS_finished \<Rightarrow> Finished
                | GS_start \<Rightarrow> (if error (ui w) = None then NotStarted else Failed)))
   \<and> (\<not> response_ok status \<longrightarrow>
         fetchQuestions_try env (Responded status body) k = Inl transport_message)
   \<and> (response_ok status \<and> response_code \<noteq> JNumber 0 \<longrightarrow>
         fetchQuestions_try env (Responded status (Envelope response_code results)) k
           = Inl bank_message)
   \<and> (fetchQuestions_try env outcome k = Inl msg \<and> in_flight w > 0 \<and> rng_pos w = k \<longrightarrow>
         step env (FetchSettled outcome) w
           = \<lparr> ui = (ui w)\<lparr> error := Some msg, gameState := GS_start, loading := False \<rparr>,
               in_flight = in_flight w - 1, rng_pos = rng_pos w \<rparr>
         \<and> phase_of (ui (step env (FetchSettled outcome) w)) = Failed
         \<and> error (ui (step env (FetchSettled outcome) w)) = Some msg)"
proof (intro conjI impI)
  show "(\<exists>r. fetchQuestions_try env outcome k = Inr r)
      \<longleftrightarrow> (\<exists>status results. outcome = Responded status (Envelope (JNumber 0) results)
                               \<and> response_ok status)"
    by (rule fetchQuestions_try_success)
next
  show "fetchQuestions_try env outcome k = Inr r
      \<longleftrightarrow> (\<exists>status results. outcome = Responded status (Envelope (JNumber 0) results)
                               \<and> response_ok status \<and> r = formatQuestions env results k)"
    by (rule fetchQuestions_try_yield)
next
  assume "response_ok status"
  then show "fetchQuestions_try env (Responded status (Envelope (JNumber 0) results)) k
           = Inr (formatQuestions env results k)"
    by (simp add: fetchQuestions_try_def)
next
  show "length (fst (formatQuestions env results k)) = length results"
    using formatQuestions_formats [of env results k] by (simp add: list_all2_lengthD)
next
  show "list_all2
        (\<lambda>questionItem q.
            question q = decodeHtml env (question questionItem)
          \<and> correct_answer q = decodeHtml env (correct_answer questionItem)
          \<and> incorrect_answers q = map (decodeHtml env) (incorrect_answers questionItem)
          \<and> mset (answers q)
              = mset (map (decodeHtml env)
                        (incorrect_answers questionItem @ [correct_answer questionItem])))
        results (fst (formatQuestions env results k))"
    by (rule formatQuestions_formats)
next
  assume a: "response_ok status \<and> in_flight w > 0"
  let ?o = "Responded status (Envelope (JNumber 0) results)"
  obtain qs k1 where f: "formatQuestions env results (rng_pos w) = (qs, k1)"
    by (cases "formatQuestions env results (rng_pos w)")
  from a f show s: "step env (FetchSettled ?o) w
           = \<lparr> ui = (ui w)\<lparr> questions := fst (formatQuestions env results (rng_pos w)),
                           loading := False \<rparr>,
               in_flight = in_flight w - 1,
               rng_pos = snd (formatQuestions env results (rng_pos w)) \<rparr>"
    by (simp add: fetchQuestions_settle_def fetchQuestions_try_def)
  show "questions (ui (step env (FetchSettled ?o) w))
             = fst (formatQuestions env results (rng_pos w))"
    by (simp only: s) simp
  show "error (ui (step env (FetchSettled ?o) w)) = error (ui w)"
    by (simp only: s) simp
  show "phase_of (ui (step env (FetchSettled ?o) w))
             = (case gameState (ui w) of
                  GS_active \<Rightarrow> Active
                | GS_finished \<Rightarrow> Finished
                | GS_start \<Rightarrow> (if error (ui w) = None then NotStarted else Failed))"
    by (simp only: s) (simp add: phase_of_def split: game_state.splits)
next
  assume "\<not> response_ok status"
  then show "fetchQuestions_try env (Responded status body) k = Inl transport_message"
    by (simp add: fetchQuestions_try_def)
next
  assume "response_ok status \<and> response_code \<noteq> JNumber 0"
  then show "fetchQuestions_try env (Responded status (Envelope response_code results)) k
           = Inl bank_message"
    by (simp add: fetchQuestions_try_def)
next
  assume a: "fetchQuestions_try env outcome k = Inl msg \<and> in_flight w > 0 \<and> rng_pos w = k"
  then show s: "step env (FetchSettled outcome) w
           = \<lparr> ui = (ui w)\<lparr> error := Some msg, gameState := GS_start, loading := False \<rparr>,
               in_flight = in_flight w - 1, rng_pos = rng_pos w \<rparr>"
    by (auto simp: fetchQuestions_settle_def)
  show "phase_of (ui (step env (FetchSettled outcome) w)) = Failed"
    by (simp only: s) (simp add: phase_of_def)
  show "error (ui (step env (FetchSettled outcome) w)) = Some msg"
    by (simp only: s) simp
qed

theorem fetchQuestions_outcomes_witness:
  "\<not> response_ok 500
   \<and> fetchQuestions_try demo_host (Responded 500 (Undecodable [])) 0 = Inl transport_message
   \<and> response_ok 200
   \<and> fetchQuestions_try demo_host (Responded 200 (Envelope (JNumber 1) [])) 0 = Inl bank_message
   \<and> fetchQuestions_try demo_host (Responded 200 (Envelope (JNumber 0) [paris_raw])) 0
        = Inr (formatQuestions demo_host [paris_raw] 0)
   \<and> formatQuestions demo_host [paris_raw] 0 = ([paris_question], 5)
   \<and> length (fst (formatQuestions demo_host [paris_raw] 0)) = length [paris_raw]
   \<and> in_flight (step demo_host Start initial_world) > 0
   \<and> rng_pos (step demo_host Start initial_world) = 0
   \<and> questions (ui (step demo_host (FetchSettled (Responded 200 (Envelope (JNumber 0) [paris_raw])))
        (step demo_host Start initial_world))) = [paris_question]
   \<and> phase_of (ui (step demo_host (FetchSettled (Responded 200 (Envelope (JNumber 0) [paris_raw])))
        (step demo_host Start initial_world))) = Active
   \<and> phase_of (ui (step demo_host (FetchSettled (Responded 500 (Undecodable [])))
        (step demo_host Start initial_world))) = Failed
   \<and> in_flight (step demo_host (FetchSettled (Responded 500 (Undecodable [])))
        (step demo_host Start initial_world)) = 0"
proof -
  let ?w = "step demo_host Start initial_world"
  let ?ok = "Responded 200 (Envelope (JNumber 0) [paris_raw])"
  have h1: "\<not> response_ok 500" and h2: "response_ok 200 \<and> JNumber 1 \<noteq> JNumber 0"
    and h2': "response_ok 200"
    by (simp_all add: response_ok_def)
  have h3: "in_flight ?w > 0" and h4: "rng_pos ?w = 0" and h5: "gameState (ui ?w) = GS_active"
    by (simp_all add: initial_world_def handleStartQuiz_def fetchQuestions_begin_def)
  have v: "formatQuestions demo_host [paris_raw] 0 = ([paris_question], 5)"
    by (simp add: eval_defs)
  note t1 = fetchQuestions_outcomes
    [of demo_host "Responded 500 (Undecodable [])" 0 "([], 0)" 500 "[]" ?w "Undecodable []"
        "JNumber 1" transport_message]
  note t2 = fetchQuestions_outcomes
    [of demo_host "Responded 500 (Undecodable [])" 0 "([], 0)" 200 "[]" ?w "Undecodable []"
        "JNumber 1" transport_message]
  note t3 = fetchQuestions_outcomes
    [of demo_host "Responded 500 (Undecodable [])" 0 "([], 0)" 200 "[paris_raw]" ?w
        "Undecodable []" "JNumber 1" transport_message]
  from t1 h1 have a: "fetchQuestions_try demo_host (Responded 500 (Undecodable [])) 0
      = Inl transport_message" by blast
  from t2 h2 have b: "fetchQuestions_try demo_host (Responded 200 (Envelope (JNumber 1) [])) 0
      = Inl bank_message" by blast
  from t3 h2' have c: "fetchQuestions_try demo_host ?ok 0
        = Inr (formatQuestions demo_host [paris_raw] 0)" by blast
  from t3 have l: "length (fst (formatQuestions demo_host [paris_raw] 0)) = length [paris_raw]"
    by blast
  from t3 h2' h3 have q: "questions (ui (step demo_host (FetchSettled ?ok) ?w))
        = fst (formatQuestions demo_host [paris_raw] (rng_pos ?w))"
    and p: "phase_of (ui (step demo_host (FetchSettled ?ok) ?w))
             = (case gameState (ui ?w) of
                  GS_active \<Rightarrow> Active
                | GS_finished \<Rightarrow> Finished
                | GS_start \<Rightarrow> (if error (ui ?w) = None then NotStarted else Failed))"
    by blast+
  from q have q': "questions (ui (step demo_host (FetchSettled ?ok) ?w)) = [paris_question]"
    by (simp only: h4 v fst_conv)
  from p have p': "phase_of (ui (step demo_host (FetchSettled ?ok) ?w)) = Active"
    by (simp only: h5 game_state.case)
  from t1 a h3 h4 have d: "step demo_host (FetchSettled (Responded 500 (Undecodable []))) ?w
      = \<lparr> ui = (ui ?w)\<lparr> error := Some transport_message, gameState := GS_start,
                        loading := False \<rparr>,
               in_flight = in_flight ?w - 1, rng_pos = rng_pos ?w \<rparr>"
    and e: "phase_of (ui (step demo_host (FetchSettled (Responded 500 (Undecodable []))) ?w))
              = Failed"
    by blast+
  have f: "in_flight (step demo_host (FetchSettled (Responded 500 (Undecodable []))) ?w) = 0"
    by (simp only: d) (simp add: initial_world_def)
  from h1 h2' a b c v l h3 h4 q' p' e f show ?thesis by blast
qed

subsection \<open>The unchecked read\<close>

text \<open>
  C10. \<open>handleAnswerSelect\<close> ends in the \<open>TypeError\<close> of its read of
  \<open>questions[currentQuestionIndex].correct_answer\<close> exactly when the state is unlocked
  and it is not the case that \<open>questions\<close> is non-empty with the index inside it. Such
  a state is reached by one start from the initial state: the game state is already
  \<open>active\<close> and the lock is off while the fetch is outstanding and \<open>questions\<close> is
  still empty, and the handler called there throws.
\<close>

theorem handleAnswerSelect_unchecked_read:
  "(threw (handleAnswerSelect answer s)
      \<longleftrightarrow> \<not> isAnswered s
          \<and> \<not> (questions s \<noteq> [] \<and> 0 \<le> currentQuestionIndex s
                \<and> currentQuestionIndex s < int (length (questions s))))
   \<and> gameState (ui (run env [Start] initial_world)) = GS_active
   \<and> \<not> isAnswered (ui (run env [Start] initial_world))
   \<and> questions (ui (run env [Start] initial_world)) = []
   \<and> in_flight (run env [Start] initial_world) = 1
   \<and> threw (handleAnswerSelect answer (ui (run env [Start] initial_world)))"
proof -
  have "threw (handleAnswerSelect answer s)
      \<longleftrightarrow> \<not> isAnswered s
          \<and> \<not> (questions s \<noteq> [] \<and> 0 \<le> currentQuestionIndex s
                \<and> currentQuestionIndex s < int (length (questions s)))"
    by (auto simp: handleAnswerSelect_def js_index_def Let_def)
  moreover have "ui (run env [Start] initial_world)
      = \<lparr> gameState = GS_active, questions = [], currentQuestionIndex = 0, score = 0,
          selectedAnswer = None, isAnswered = False, loading = True, error = None \<rparr>"
    by (simp add: initial_world_def initial_state_def handleStartQuiz_def fetchQuestions_begin_def)
  moreover have "in_flight (run env [Start] initial_world) = 1"
    by (simp add: initial_world_def)
  ultimately show ?thesis
    by (simp add: handleAnswerSelect_def js_index_def)
qed

theorem handleAnswerSelect_unchecked_read_witness:
  "threw (handleAnswerSelect ''Paris'' (ui (run demo_host [Start] initial_world)))
   \<and> \<not> threw (handleAnswerSelect ''Paris'' (ui quiz_loaded))"
proof -
  have "\<not> (\<not> isAnswered (ui quiz_loaded)
          \<and> \<not> (questions (ui quiz_loaded) \<noteq> [] \<and> 0 \<le> currentQuestionIndex (ui quiz_loaded)
                \<and> currentQuestionIndex (ui quiz_loaded) < int (length (questions (ui quiz_loaded)))))"
    by (simp add: quiz_loaded_eq)
  with handleAnswerSelect_unchecked_read [of "''Paris''" "ui quiz_loaded" demo_host]
  show ?thesis by blast
qed

subsection \<open>Runs through the screen\<close>

text \<open>
  In the runs a user can cause, a fetch is outstanding exactly while the spinner is
  shown: the two start buttons are not drawn then, so there is never a second fetch.
  In particular no fetch is outstanding in a state that is active.
\<close>

lemma step_ui_in_flight:
  assumes "in_flight w = (if loading (ui w) then 1 else 0)"
  shows "in_flight (step_ui env e w) = (if loading (ui (step_ui env e w)) then 1 else 0)"
proof (cases e)
  case Start
  with assms show ?thesis
    by (simp add: step_ui_def renderContent_def handleStartQuiz_def fetchQuestions_begin_def
          split: if_splits)
next
  case (SelectAnswer a)
  with assms show ?thesis
    by (simp add: step_ui_def handleAnswerSelect_def Let_def split: option.splits)
next
  case NextQuestion
  with assms show ?thesis
    by (simp add: step_ui_def handleNextQuestion_def)
next
  case (FetchSettled outcome)
  with assms show ?thesis
    by (simp add: step_ui_def fetchQuestions_settle_def split: sum.splits prod.splits if_splits)
qed

lemma run_ui_in_flight:
  assumes "in_flight w = (if loading (ui w) then 1 else 0)"
  shows "in_flight (run_ui env es w) = (if loading (ui (run_ui env es w)) then 1 else 0)"
  using assms
proof (induction es arbitrary: w)
  case Nil
  then show ?case by simp
next
  case (Cons e es)
  from Cons.IH [OF step_ui_in_flight [OF Cons.prems]] show ?case by simp
qed

lemma active_on_screen_no_fetch:
  assumes "phase_of (ui (run_ui env es initial_world)) = Active"
  shows "in_flight (run_ui env es initial_world) = 0"
proof -
  have "in_flight initial_world = (if loading (ui initial_world) then 1 else 0)"
    by (simp add: initial_world_def initial_state_def)
  from run_ui_in_flight [OF this, of env es] assms show ?thesis
    by (simp add: phase_of_def split: if_splits)
qed

end
